theory Spec2Isabelle
  imports Complex_Main
begin

section \<open>Neurons (include/shark/Models/Neurons.h)\<close>

text \<open>
  The neuron structs are stateless: each has a static member \<open>function\<close> (the activation)
  and a static member \<open>functionDerivative\<close> (the derivative, written in terms of the
  neuron's output \<open>y\<close>). Both are templates over the scalar type \<open>T\<close>, which the library
  instantiates with \<open>double\<close>. LinearNeuron and RectifierNeuron only return or compare
  their argument, so nothing is rounded and they are written over the real numbers.
  FastSigmoidNeuron adds and divides; its \<open>function\<close> is written over IEEE 754 binary64
  numbers with each operation rounded to nearest, ties to even.
\<close>

text \<open>LinearNeuron: \<^verbatim>\<open>return x;\<close> and \<^verbatim>\<open>return 1.0;\<close>\<close>

definition LinearNeuron_function :: "real \<Rightarrow> real" where
  "LinearNeuron_function x = x"

definition LinearNeuron_functionDerivative :: "real \<Rightarrow> real" where
  "LinearNeuron_functionDerivative y = 1"

text \<open>RectifierNeuron: \<^verbatim>\<open>return std::max<T>(0,x);\<close> and
  \<^verbatim>\<open>if(y == 0) return T(0); return T(1);\<close>\<close>

definition RectifierNeuron_function :: "real \<Rightarrow> real" where
  "RectifierNeuron_function x = max 0 x"

definition RectifierNeuron_functionDerivative :: "real \<Rightarrow> real" where
  "RectifierNeuron_functionDerivative y = (if y = 0 then 0 else 1)"

subsection \<open>Binary64 arithmetic, as far as FastSigmoidNeuron uses it\<close>

text \<open>
  A \<open>double\<close> is a finite number, an infinity or a NaN. A finite number is a sign bit
  (\<open>True\<close> for negative) and a magnitude, so that \<open>+0\<close> and \<open>-0\<close> are two values. The
  magnitudes a \<open>double\<close> can hold are the numbers \<open>m * 2^e\<close> with integers
  \<open>0 <= m < 2^53\<close> and \<open>-1074 <= e <= 971\<close>.
\<close>

datatype double = Finite bool real | Infinity bool | NaN

text \<open>The nearest integer, a tie going to the even one.\<close>

definition roundHalfEven :: "real \<Rightarrow> int" where
  "roundHalfEven t =
     (let f = \<lfloor>t\<rfloor> in
      if t - of_int f < 1 / 2 then f
      else if 1 / 2 < t - of_int f then f + 1
      else if even f then f else f + 1)"

text \<open>
  The exponent of the unit in the last place for a positive magnitude \<open>t\<close>: with 53
  significant bits it is 52 below the binary exponent of \<open>t\<close>, and never below \<open>-1074\<close>,
  the exponent of the subnormal numbers.
\<close>

definition quantum :: "real \<Rightarrow> int" where
  "quantum t = max (\<lfloor>log 2 t\<rfloor> - 52) (- 1074)"

text \<open>Rounding a magnitude to the nearest multiple of its unit in the last place, the
  exponent range above not yet bounded.\<close>

definition roundMagnitude :: "real \<Rightarrow> real" where
  "roundMagnitude t =
     (if t = 0 then 0
      else of_int (roundHalfEven (t / 2 powi quantum t)) * 2 powi quantum t)"

text \<open>The \<open>double\<close> that an exact result with sign \<open>s\<close> and magnitude \<open>t\<close> is rounded to:
  a rounded magnitude of \<open>2^1024\<close> or more overflows to infinity.\<close>

definition roundToDouble :: "bool \<Rightarrow> real \<Rightarrow> double" where
  "roundToDouble s t =
     (if 2 powi 1024 \<le> roundMagnitude t then Infinity s else Finite s (roundMagnitude t))"

text \<open>\<open>std::abs\<close> clears the sign.\<close>

fun dabs :: "double \<Rightarrow> double" where
  "dabs (Finite s m) = Finite False m"
| "dabs (Infinity s) = Infinity False"
| "dabs NaN = NaN"

definition signedValue :: "bool \<Rightarrow> real \<Rightarrow> real" where
  "signedValue s m = (if s then - m else m)"

text \<open>
  Addition: the exact sum, rounded. An exact sum of zero is \<open>+0\<close> unless both operands
  are negative; infinities of opposite sign give NaN.
\<close>

fun dadd :: "double \<Rightarrow> double \<Rightarrow> double" where
  "dadd NaN y = NaN"
| "dadd x NaN = NaN"
| "dadd (Infinity s) (Infinity s') = (if s = s' then Infinity s else NaN)"
| "dadd (Infinity s) (Finite s' m') = Infinity s"
| "dadd (Finite s m) (Infinity s') = Infinity s'"
| "dadd (Finite s m) (Finite s' m') =
     (let v = signedValue s m + signedValue s' m'
      in if v = 0 then Finite (s \<and> s') 0 else roundToDouble (v < 0) \<bar>v\<bar>)"

text \<open>
  Division: the exact quotient, rounded, with the sign the two signs give. A nonzero
  number over zero is an infinity; zero over zero and infinity over infinity are NaN.
\<close>

fun ddiv :: "double \<Rightarrow> double \<Rightarrow> double" where
  "ddiv NaN y = NaN"
| "ddiv x NaN = NaN"
| "ddiv (Infinity s) (Infinity s') = NaN"
| "ddiv (Infinity s) (Finite s' m') = Infinity (s \<noteq> s')"
| "ddiv (Finite s m) (Infinity s') = Finite (s \<noteq> s') 0"
| "ddiv (Finite s m) (Finite s' m') =
     (if m' = 0 then (if m = 0 then NaN else Infinity (s \<noteq> s'))
      else roundToDouble (s \<noteq> s') (m / m'))"

text \<open>The literal \<open>1\<close>, converted to \<open>double\<close>.\<close>

definition double_one :: double where
  "double_one = Finite False 1"

text \<open>FastSigmoidNeuron: \<^verbatim>\<open>return x/(1+std::abs(x));\<close>\<close>

definition FastSigmoidNeuron_function :: "double \<Rightarrow> double" where
  "FastSigmoidNeuron_function x = ddiv x (dadd double_one (dabs x))"

text \<open>
  DropoutNeuron wraps a neuron type. Its \<open>function\<close> first draws \<^verbatim>\<open>Rng::coinToss()\<close> from
  the process-wide generator and returns \<^verbatim>\<open>T(0)\<close> when the toss is true, otherwise
  \<^verbatim>\<open>Neuron::function(x)\<close>. The generator is global mutable state, so the model threads
  it: \<open>coinToss\<close> maps a generator state to the outcome and the next state. Class \<open>Rng\<close>
  is defined elsewhere in the library; it is a parameter, and so is the wrapped neuron
  (the template argument).
\<close>

definition DropoutNeuron_function ::
  "(real \<Rightarrow> real) \<Rightarrow> ('g \<Rightarrow> bool \<times> 'g) \<Rightarrow> real \<Rightarrow> 'g \<Rightarrow> real \<times> 'g" where
  "DropoutNeuron_function Neuron_function coinToss x g =
     (case coinToss g of
        (toss, g') \<Rightarrow> if toss then (0, g') else (Neuron_function x, g'))"

definition DropoutNeuron_functionDerivative :: "(real \<Rightarrow> real) \<Rightarrow> real \<Rightarrow> real" where
  "DropoutNeuron_functionDerivative Neuron_functionDerivative y = Neuron_functionDerivative y"

text \<open>
  A generator whose future coin tosses are written down in advance: the state is the list
  of outcomes still to come (an exhausted list tosses false). It serves as a concrete
  instance of the \<open>coinToss\<close> parameter.
\<close>

fun scriptedCoinToss :: "bool list \<Rightarrow> bool \<times> bool list" where
  "scriptedCoinToss [] = (False, [])"
| "scriptedCoinToss (b # bs) = (b, bs)"


section \<open>CSV import of labelled data (src/Data/Csv.cpp)\<close>

text \<open>
  \<open>csvStringToData\<close> for \<open>LabeledData<RealVector, unsigned int>\<close> parses the file
  contents into rows, checks the labels, and copies the rows batch by batch into the
  dataset. An exception (\<open>SHARKEXCEPTION\<close>) is the value \<open>Inl\<close> of a sum; the dataset is
  \<open>Inr\<close>.
\<close>

datatype csv_error =
    SharkException string
  | SizeCheckFailed
  | RowOutOfRange

datatype LabelPosition = FIRST_COLUMN | LAST_COLUMN

text \<open>
  \<^verbatim>\<open>typedef std::pair<int, std::vector<double > > CsvPoint;\<close> The label is a C++ \<open>int\<close>;
  the cells are only copied, never computed with (a missing value is a NaN), so their
  type is left open.
\<close>

type_synonym 'v CsvPoint = "int \<times> 'v list"

text \<open>One batch of the dataset: the input matrix, row by row, and the label vector
  (\<open>UIntVector\<close>).\<close>

record 'v LabeledBatch =
  input :: "'v list list"
  label :: "nat list"

text \<open>\<^verbatim>\<open>std::numeric_limits<int>::max()\<close> for the 32-bit \<open>int\<close>.\<close>

definition INT_MAX :: int where
  "INT_MAX = 2147483647"

text \<open>The three variables of the label check.\<close>

record label_check =
  binaryLabels :: bool
  minPositiveLabel :: int
  maxPositiveLabel :: int

definition label_check_init :: label_check where
  "label_check_init =
     \<lparr>binaryLabels = False, minPositiveLabel = INT_MAX, maxPositiveLabel = - 1\<rparr>"

definition negative_labels_message :: string where
  "negative_labels_message = ''negative labels are only allowed for classes -1/1''"

definition same_size_message :: string where
  "same_size_message = ''vectors are required to have same size''"

text \<open>
  The loop over the labels (lines 306 to 316), one label per step, in row order. The
  branches are an \<open>if / else if\<close> chain: a label that lowers \<open>minPositiveLabel\<close> is not
  compared with \<open>maxPositiveLabel\<close>.
\<close>

fun check_labels :: "int list \<Rightarrow> label_check \<Rightarrow> csv_error + label_check" where
  "check_labels [] c = Inr c"
| "check_labels (l # ls) c =
     (if l < - 1 then Inl (SharkException negative_labels_message)
      else if l = - 1 then check_labels ls (c\<lparr>binaryLabels := True\<rparr>)
      else if l < minPositiveLabel c then check_labels ls (c\<lparr>minPositiveLabel := l\<rparr>)
      else if l > maxPositiveLabel c then check_labels ls (c\<lparr>maxPositiveLabel := l\<rparr>)
      else check_labels ls c)"

text \<open>The test after the loop (line 317).\<close>

definition labels_rejected :: "label_check \<Rightarrow> bool" where
  "labels_rejected c =
     (binaryLabels c \<and> (minPositiveLabel c = 0 \<or> maxPositiveLabel c > 1))"

text \<open>Division of C++ \<open>int\<close>s truncates towards zero.\<close>

definition c_div :: "int \<Rightarrow> int \<Rightarrow> int" where
  "c_div a b = sgn a * sgn b * (\<bar>a\<bar> div \<bar>b\<bar>)"

text \<open>Storing an \<open>int\<close> in an \<open>unsigned int\<close> reduces it modulo \<open>2 ^ 32\<close>.\<close>

definition to_unsigned :: "int \<Rightarrow> nat" where
  "to_unsigned x = nat (x mod 2 ^ 32)"

text \<open>
  \<^verbatim>\<open>labels[i] = binaryLabels? 1 + (rawLabel-1)/2 : rawLabel -minPositiveLabel;\<close>
\<close>

definition convert_label :: "label_check \<Rightarrow> int \<Rightarrow> nat" where
  "convert_label c rawLabel =
     to_unsigned (if binaryLabels c then 1 + c_div (rawLabel - 1) 2
                  else rawLabel - minPositiveLabel c)"

text \<open>
  The inner loop (lines 332 to 341) fills one batch from the rows that fall into it; a
  row whose number of cells is not \<open>dimensions\<close> throws.
\<close>

fun copy_rows ::
  "nat \<Rightarrow> label_check \<Rightarrow> 'v CsvPoint list \<Rightarrow> csv_error + 'v LabeledBatch" where
  "copy_rows dimensions c [] = Inr \<lparr>input = [], label = []\<rparr>"
| "copy_rows dimensions c (r # rs) =
     (if length (snd r) \<noteq> dimensions then Inl (SharkException same_size_message)
      else (case copy_rows dimensions c rs of
              Inl e \<Rightarrow> Inl e
            | Inr b \<Rightarrow>
                Inr \<lparr>input = snd r # input b, label = convert_label c (fst r) # label b\<rparr>))"

text \<open>
  The outer loop (lines 326 to 343) over the batch sizes; \<open>rows\<close> holds the rows from
  \<open>currentRow\<close> on. Reading a row past the end of \<open>rows\<close> is the error \<open>RowOutOfRange\<close>, and
  \<^verbatim>\<open>SIZE_CHECK(currentRow == rows.size())\<close> after the loop is \<open>SizeCheckFailed\<close>.
\<close>

fun copy_batches ::
  "nat \<Rightarrow> label_check \<Rightarrow> nat list \<Rightarrow> 'v CsvPoint list \<Rightarrow> csv_error + 'v LabeledBatch list"
  where
  "copy_batches dimensions c [] rows = (if rows = [] then Inr [] else Inl SizeCheckFailed)"
| "copy_batches dimensions c (b # bs) rows =
     (case copy_rows dimensions c (take b rows) of
        Inl e \<Rightarrow> Inl e
      | Inr batch \<Rightarrow>
          if length rows < b then Inl RowOutOfRange
          else (case copy_batches dimensions c bs (drop b rows) of
                  Inl e \<Rightarrow> Inl e
                | Inr batches \<Rightarrow> Inr (batch # batches)))"

text \<open>
  The body of \<open>csvStringToData\<close> from line 295 on, for the rows the reader returned.
  \<open>shark::detail::optimalBatchSizes\<close> is defined in the dataset headers of the library; here
  it is the parameter \<open>optimalBatchSizes\<close>.
\<close>

definition labeledDataFromRows ::
  "(nat \<Rightarrow> nat \<Rightarrow> nat list) \<Rightarrow> 'v CsvPoint list \<Rightarrow> nat \<Rightarrow> csv_error + 'v LabeledBatch list"
  where
  "labeledDataFromRows optimalBatchSizes rows maximumBatchSize =
     (if rows = [] then Inr []
      else (case check_labels (map fst rows) label_check_init of
              Inl e \<Rightarrow> Inl e
            | Inr c \<Rightarrow>
                if labels_rejected c then Inl (SharkException negative_labels_message)
                else copy_batches (length (snd (hd rows))) c
                       (optimalBatchSizes (length rows) maximumBatchSize) rows))"

text \<open>
  \<open>csvStringToData\<close> itself. The reader \<open>import_csv_reader_points\<close> is a Boost.Spirit
  grammar; it is a parameter that returns the rows or the parse exception.
\<close>

definition csvStringToData ::
  "(string \<Rightarrow> LabelPosition \<Rightarrow> char \<Rightarrow> char \<Rightarrow> csv_error + 'v CsvPoint list) \<Rightarrow>
   (nat \<Rightarrow> nat \<Rightarrow> nat list) \<Rightarrow>
   string \<Rightarrow> LabelPosition \<Rightarrow> char \<Rightarrow> char \<Rightarrow> nat \<Rightarrow> csv_error + 'v LabeledBatch list"
  where
  "csvStringToData import_csv_reader_points optimalBatchSizes contents lp separator comment
      maximumBatchSize =
     (case import_csv_reader_points contents lp separator comment of
        Inl e \<Rightarrow> Inl e
      | Inr rows \<Rightarrow> labeledDataFromRows optimalBatchSizes rows maximumBatchSize)"


section \<open>The CMA-ES search (EALib/CMA.h, used by Test/EALib/SchwefelEllipsoidCMA.cpp)\<close>

text \<open>
  The test driver includes \<open>EALib/CMA.h\<close> and calls \<open>init\<close>, \<open>run\<close> and
  \<open>bestSolutionFitness\<close> of \<open>CMASearch\<close>; the class itself is defined in that header, of
  which only the use is available. The definitions of this section follow the
  specification of the search instead: its data model, the orchestrator \<open>CMASearch\<close>, the
  sampler and the ranking of the population.
\<close>

text \<open>Modelled from the spec: the error taxonomy of \<open>CMASearch\<close> (the class is missing).\<close>

datatype cma_error = InvalidArgument | NotInitialized | NumericalDegeneracy

text \<open>
  Modelled from the spec: the result of \<open>Objective.evaluate\<close>, a finite scalar or the
  failure sentinel \<open>+infinity\<close> (the objective classes are missing). Lower is better, and the
  sentinel is worse than every scalar.
\<close>

datatype fitness = Value real | PlusInfinity

fun fitness_less :: "fitness \<Rightarrow> fitness \<Rightarrow> bool" where
  "fitness_less (Value a) (Value b) = (a < b)"
| "fitness_less (Value a) PlusInfinity = True"
| "fitness_less PlusInfinity b = False"

definition fitness_le :: "fitness \<Rightarrow> fitness \<Rightarrow> bool" where
  "fitness_le a b = (\<not> fitness_less b a)"

text \<open>
  Modelled from the spec: the \<open>Objective\<close> collaborator with \<open>dimension()\<close>,
  \<open>evaluate(vector)\<close> and the optional \<open>proposeStartingPoint()\<close> (the objective classes of
  \<open>EALib/ObjectiveFunctions.h\<close> are missing).
\<close>

record Objective =
  dimension :: nat
  evaluate :: "real list \<Rightarrow> fitness"
  proposeStartingPoint :: "real list option"

text \<open>
  Modelled from the spec: \<open>StrategyParameters\<close>, derived once at \<open>init\<close> (the class
  \<open>CMASearch\<close> is missing). The spec names the parameters and gives the default population
  size; the formulas of the other parameters are not in it, so their derivation is a
  parameter of \<open>init\<close>.
\<close>

record StrategyParameters =
  lambda :: nat
  mu :: nat
  weights :: "real list"
  mu_eff :: real
  c_c :: real
  c_s :: real
  c_1 :: real
  c_mu :: real
  d_sigma :: real
  chiN :: real

text \<open>Modelled from the spec: \<open>SearchState\<close> (the class \<open>CMASearch\<close> is missing).\<close>

record SearchState =
  dimensionN :: nat
  mean :: "real list"
  sigma :: real
  covariance :: "real list list"
  eigenvectors :: "real list list"
  eigenvalues :: "real list"
  pathC :: "real list"
  pathSigma :: "real list"
  generationCount :: nat
  lastEigenUpdateGeneration :: nat

text \<open>
  Modelled from the spec: an \<open>Individual\<close> of the population, with the draws \<open>z\<close> and the
  transformed step \<open>y\<close> the sampler stores with it (the class \<open>CMASearch\<close> is missing).
\<close>

record Individual =
  candidate :: "real list"
  fitnessOf :: fitness
  sampleZ :: "real list"
  sampleY :: "real list"

text \<open>Modelled from the spec: \<open>BestSolution\<close>, the best individual ever observed (the class
  \<open>CMASearch\<close> is missing).\<close>

record BestSolution =
  bestVector :: "real list"
  bestFitness :: fitness

text \<open>
  Modelled from the spec: what \<open>CMASearch\<close> owns once initialised (the class is missing).
  \<open>best\<close> is \<open>None\<close> until the first \<open>run\<close>.
\<close>

record Search =
  objective :: Objective
  parameters :: StrategyParameters
  state :: SearchState
  best :: "BestSolution option"

datatype CMASearch = Uninitialized | Initialized Search

text \<open>Modelled from the spec: the identity matrix that \<open>init\<close> sets \<open>C\<close> and \<open>B\<close> to, as a
  list of rows (the class \<open>CMASearch\<close> is missing).\<close>

definition identityMatrix :: "nat \<Rightarrow> real list list" where
  "identityMatrix k = map (\<lambda>i. map (\<lambda>j. if i = j then 1 else 0) [0..<k]) [0..<k]"

text \<open>Modelled from the spec: the default population size \<open>4 + floor(3 * ln(n))\<close> (the class
  \<open>CMASearch\<close> is missing).\<close>

definition defaultLambda :: "nat \<Rightarrow> nat" where
  "defaultLambda k = 4 + nat \<lfloor>3 * ln (real k)\<rfloor>"

text \<open>
  Modelled from the spec: \<open>CMASearch.init(objective, startPoint, initialSigma)\<close> (the class
  is missing). It requires a dimension of at least 1, a start point of that length and a
  positive step size, and fails with \<open>InvalidArgument\<close> otherwise; then the mean is the
  start point, \<open>C = I\<close>, \<open>B = I\<close>, \<open>D = 1\<close>, both paths are zero and the generation count is
  0.
\<close>

definition init ::
  "(nat \<Rightarrow> nat \<Rightarrow> StrategyParameters) \<Rightarrow> Objective \<Rightarrow> real list \<Rightarrow> real
     \<Rightarrow> cma_error + CMASearch" where
  "init deriveParameters f startPoint initialSigma =
     (if dimension f < 1 \<or> length startPoint \<noteq> dimension f \<or> initialSigma \<le> 0
      then Inl InvalidArgument
      else Inr (Initialized
        \<lparr>objective = f,
         parameters = deriveParameters (dimension f) (defaultLambda (dimension f)),
         state =
           \<lparr>dimensionN = dimension f,
            mean = startPoint,
            sigma = initialSigma,
            covariance = identityMatrix (dimension f),
            eigenvectors = identityMatrix (dimension f),
            eigenvalues = replicate (dimension f) 1,
            pathC = replicate (dimension f) 0,
            pathSigma = replicate (dimension f) 0,
            generationCount = 0,
            lastEigenUpdateGeneration = 0\<rparr>,
         best = None\<rparr>))"

text \<open>
  Modelled from the spec: the \<open>RandomSource\<close> as a state that \<open>standardNormal\<close> maps to a
  draw and the next state (class \<open>Rng\<close> is missing); \<open>drawNormals\<close> takes \<open>k\<close> draws in order.
\<close>

fun drawNormals :: "('g \<Rightarrow> real \<times> 'g) \<Rightarrow> nat \<Rightarrow> 'g \<Rightarrow> real list \<times> 'g" where
  "drawNormals standardNormal 0 g = ([], g)"
| "drawNormals standardNormal (Suc k) g =
     (case standardNormal g of
        (v, g1) \<Rightarrow> (case drawNormals standardNormal k g1 of (vs, g2) \<Rightarrow> (v # vs, g2)))"

text \<open>Modelled from the spec: the product of a matrix, given by its rows, with a vector, as
  the sampler needs it for \<open>B * (D \<odot> z)\<close> (the linear algebra of the library is missing).\<close>

definition matVec :: "real list list \<Rightarrow> real list \<Rightarrow> real list" where
  "matVec B v = map (\<lambda>row. sum_list (map2 (*) row v)) B"

text \<open>
  Modelled from the spec: the \<open>Sampler\<close> (the class \<open>CMASearch\<close> is missing). One candidate
  is \<open>x = mean + sigma * y\<close> with \<open>y = B * (D \<odot> z)\<close> and \<open>z\<close> standard normal; it is
  evaluated at once, and \<open>z\<close> and \<open>y\<close> are kept with it.
\<close>

definition sampleOne ::
  "('g \<Rightarrow> real \<times> 'g) \<Rightarrow> Objective \<Rightarrow> SearchState \<Rightarrow> 'g \<Rightarrow> Individual \<times> 'g" where
  "sampleOne standardNormal f s g =
     (case drawNormals standardNormal (dimensionN s) g of
        (zs, g') \<Rightarrow>
          (let ys = matVec (eigenvectors s) (map2 (*) (eigenvalues s) zs);
               x = map2 (\<lambda>m yi. m + sigma s * yi) (mean s) ys
           in (\<lparr>candidate = x, fitnessOf = evaluate f x, sampleZ = zs, sampleY = ys\<rparr>, g')))"

text \<open>Modelled from the spec: the sampler called once for each of the \<open>lambda\<close> candidates, in
  the order of their index (the class \<open>CMASearch\<close> is missing).\<close>

fun samplePopulation ::
  "('g \<Rightarrow> real \<times> 'g) \<Rightarrow> Objective \<Rightarrow> SearchState \<Rightarrow> nat \<Rightarrow> 'g \<Rightarrow> Individual list \<times> 'g"
  where
  "samplePopulation standardNormal f s 0 g = ([], g)"
| "samplePopulation standardNormal f s (Suc k) g =
     (case sampleOne standardNormal f s g of
        (i, g1) \<Rightarrow>
          (case samplePopulation standardNormal f s k g1 of (is, g2) \<Rightarrow> (i # is, g2)))"

text \<open>
  Modelled from the spec: the ranking of the population, ascending in fitness, ties in the
  order of sampling (the class \<open>CMASearch\<close> is missing).
\<close>

fun insertRanked :: "Individual \<Rightarrow> Individual list \<Rightarrow> Individual list" where
  "insertRanked i [] = [i]"
| "insertRanked i (j # js) =
     (if fitness_le (fitnessOf i) (fitnessOf j) then i # j # js else j # insertRanked i js)"

fun rankPopulation :: "Individual list \<Rightarrow> Individual list" where
  "rankPopulation [] = []"
| "rankPopulation (i # is) = insertRanked i (rankPopulation is)"

text \<open>A population is ranked when no individual is followed by a strictly better one.\<close>

definition isRanked :: "Individual list \<Rightarrow> bool" where
  "isRanked is = sorted_wrt (\<lambda>a b. fitness_le (fitnessOf a) (fitnessOf b)) is"

text \<open>
  Modelled from the spec: the update of \<open>BestSolution\<close> from the ranked population (the
  class \<open>CMASearch\<close> is missing). The first of the ranked individuals replaces the best
  solution when its fitness is strictly better, or when there is none yet.
\<close>

fun updateBest :: "BestSolution option \<Rightarrow> Individual list \<Rightarrow> BestSolution option" where
  "updateBest b [] = b"
| "updateBest None (i # is) = Some \<lparr>bestVector = candidate i, bestFitness = fitnessOf i\<rparr>"
| "updateBest (Some b) (i # is) =
     (if fitness_less (fitnessOf i) (bestFitness b)
      then Some \<lparr>bestVector = candidate i, bestFitness = fitnessOf i\<rparr>
      else Some b)"

text \<open>
  Modelled from the spec: \<open>CMASearch.run()\<close>, one generation (the class is missing): sample
  \<open>lambda\<close> candidates, evaluate, rank, adapt, count the generation, update the best
  solution. Before \<open>init\<close> it fails with \<open>NotInitialized\<close>. The \<open>AdaptationEngine\<close> together
  with the \<open>EigenDecomposer\<close> is the parameter \<open>adapt\<close>: it returns the adapted state or a
  failure such as \<open>NumericalDegeneracy\<close>, which \<open>run\<close> passes on.
\<close>

definition run ::
  "('g \<Rightarrow> real \<times> 'g) \<Rightarrow>
   (StrategyParameters \<Rightarrow> SearchState \<Rightarrow> Individual list \<Rightarrow> cma_error + SearchState) \<Rightarrow>
   CMASearch \<Rightarrow> 'g \<Rightarrow> cma_error + CMASearch \<times> 'g" where
  "run standardNormal adapt c g =
     (case c of
        Uninitialized \<Rightarrow> Inl NotInitialized
      | Initialized s \<Rightarrow>
          (case samplePopulation standardNormal (objective s) (state s)
                  (lambda (parameters s)) g of
             (population, g') \<Rightarrow>
               (let ranked = rankPopulation population in
                (case adapt (parameters s) (state s) ranked of
                   Inl e \<Rightarrow> Inl e
                 | Inr st \<Rightarrow>
                     Inr (Initialized
                            (s\<lparr>state := st\<lparr>generationCount := Suc (generationCount (state s))\<rparr>,
                               best := updateBest (best s) ranked\<rparr>), g')))))"

text \<open>
  Modelled from the spec: the accessor \<open>bestSolutionFitness()\<close> (the class \<open>CMASearch\<close> is
  missing). It is valid only after at least one \<open>run\<close>; before that it is reported as
  \<open>NotInitialized\<close>, so that nothing is read from a best solution that does not exist.
\<close>

definition bestSolutionFitness :: "CMASearch \<Rightarrow> cma_error + fitness" where
  "bestSolutionFitness c =
     (case c of
        Uninitialized \<Rightarrow> Inl NotInitialized
      | Initialized s \<Rightarrow>
          (case best s of None \<Rightarrow> Inl NotInitialized | Some b \<Rightarrow> Inr (bestFitness b)))"



subsection \<open>The optimisation loop of the test (Test/EALib/SchwefelEllipsoidCMA.cpp)\<close>

text \<open>
  \<^verbatim>\<open>do { cma.run(); i++; } while (cma.bestSolutionFitness() > 10E-10);\<close>
  The literal \<open>10E-10\<close> is \<open>10 * 10^-10\<close>, that is \<open>10^-9\<close>.
\<close>

definition targetFitness :: real where
  "targetFitness = 10 / 10 ^ 10"

text \<open>
  The loop of lines 37 to 41, over the search above; \<open>i\<close> counts the calls of \<open>run\<close>.
  Nothing bounds the number of rounds, so a loop that never ends is the value \<open>None\<close>; an
  exception of \<open>run\<close> or of the accessor leaves the loop as \<open>Inl\<close>.
\<close>

partial_function (option) optimizationLoop ::
  "('g \<Rightarrow> real \<times> 'g) \<Rightarrow>
   (StrategyParameters \<Rightarrow> SearchState \<Rightarrow> Individual list \<Rightarrow> cma_error + SearchState) \<Rightarrow>
   CMASearch \<Rightarrow> 'g \<Rightarrow> nat \<Rightarrow> (cma_error + CMASearch \<times> 'g \<times> nat) option" where
  "optimizationLoop standardNormal adapt c g i =
     (case run standardNormal adapt c g of
        Inl e \<Rightarrow> Some (Inl e)
      | Inr (c', g') \<Rightarrow>
          (case bestSolutionFitness c' of
             Inl e \<Rightarrow> Some (Inl e)
           | Inr f \<Rightarrow>
               if fitness_less (Value targetFitness) f
               then optimizationLoop standardNormal adapt c' g' (Suc i)
               else Some (Inr (c', g', Suc i))))"

text \<open>What holds of a result of the loop that started with the count \<open>i\<close>: the count has
  grown, and the best fitness is not above the target.\<close>

definition exitsAtTarget :: "nat \<Rightarrow> (cma_error + CMASearch \<times> 'g \<times> nat) \<Rightarrow> bool" where
  "exitsAtTarget i r =
     (case r of
        Inl e \<Rightarrow> True
      | Inr (c', g', k) \<Rightarrow>
          i < k \<and> (case bestSolutionFitness c' of
                     Inl e \<Rightarrow> False
                   | Inr f \<Rightarrow> \<not> fitness_less (Value targetFitness) f))"


subsection \<open>A small instance\<close>

text \<open>
  A concrete objective, parameter derivation, adaptation and random source on which the
  search can be run by hand: the sphere function \<open>sum x_i^2\<close>, equal weights on the better
  half, an adaptation that leaves the distribution as it is, and a random source whose
  draws are written down in advance.
\<close>

definition sphere :: "nat \<Rightarrow> Objective" where
  "sphere k =
     \<lparr>dimension = k,
      evaluate = (\<lambda>x. Value (sum_list (map (\<lambda>v. v * v) x))),
      proposeStartingPoint = Some (replicate k 1)\<rparr>"

definition plainParameters :: "nat \<Rightarrow> nat \<Rightarrow> StrategyParameters" where
  "plainParameters k l =
     \<lparr>lambda = l, mu = l div 2, weights = replicate (l div 2) (1 / real (l div 2)),
      mu_eff = real (l div 2), c_c = 0, c_s = 0, c_1 = 0, c_mu = 0, d_sigma = 1, chiN = 1\<rparr>"

definition keepDistribution ::
  "StrategyParameters \<Rightarrow> SearchState \<Rightarrow> Individual list \<Rightarrow> cma_error + SearchState" where
  "keepDistribution p s ranked = Inr s"

fun scriptedNormal :: "real list \<Rightarrow> real \<times> real list" where
  "scriptedNormal [] = (0, [])"
| "scriptedNormal (v # vs) = (v, vs)"

text \<open>A search in dimension 1 around the point 1 whose best solution so far is the point 1
  itself, with fitness 1; the population size is 2.\<close>

definition searchAtOne :: CMASearch where
  "searchAtOne = Initialized
     \<lparr>objective = sphere 1,
      parameters = plainParameters 1 2,
      state =
        \<lparr>dimensionN = 1, mean = [1], sigma = 1, covariance = [[1]], eigenvectors = [[1]],
         eigenvalues = [1], pathC = [0], pathSigma = [0], generationCount = 1,
         lastEigenUpdateGeneration = 0\<rparr>,
      best = Some \<lparr>bestVector = [1], bestFitness = Value 1\<rparr>\<rparr>"

text \<open>The same search one generation later, after the draws \<open>1/2\<close> and \<open>-1/2\<close>: the
  candidate \<open>1/2\<close> with fitness \<open>1/4\<close> is the new best solution.\<close>

definition searchAfterRun :: CMASearch where
  "searchAfterRun = Initialized
     \<lparr>objective = sphere 1,
      parameters = plainParameters 1 2,
      state =
        \<lparr>dimensionN = 1, mean = [1], sigma = 1, covariance = [[1]], eigenvectors = [[1]],
         eigenvalues = [1], pathC = [0], pathSigma = [0], generationCount = 2,
         lastEigenUpdateGeneration = 0\<rparr>,
      best = Some \<lparr>bestVector = [1 / 2], bestFitness = Value (1 / 4)\<rparr>\<rparr>"


section \<open>Properties of the neurons\<close>

subsection \<open>Rounding\<close>

lemma roundHalfEven_ge: "of_int n \<le> t \<Longrightarrow> n \<le> roundHalfEven t"
proof -
  assume "of_int n \<le> t"
  then have "n \<le> \<lfloor>t\<rfloor>" by (simp add: le_floor_iff)
  then show ?thesis by (auto simp: roundHalfEven_def Let_def)
qed

lemma roundHalfEven_le_half: "t < of_int n + 1 / 2 \<Longrightarrow> roundHalfEven t \<le> n"
proof -
  assume a: "t < of_int n + 1 / 2"
  then have "t < of_int (n + 1)" by simp
  then have f: "\<lfloor>t\<rfloor> \<le> n" by (simp add: floor_le_iff)
  show ?thesis
  proof (cases "\<lfloor>t\<rfloor> = n")
    case True
    with a show ?thesis by (auto simp: roundHalfEven_def Let_def)
  next
    case False
    with f have "\<lfloor>t\<rfloor> + 1 \<le> n" by simp
    then show ?thesis by (auto simp: roundHalfEven_def Let_def)
  qed
qed

lemma roundHalfEven_le: "t \<le> of_int n \<Longrightarrow> roundHalfEven t \<le> n"
  by (rule roundHalfEven_le_half) simp

lemma roundHalfEven_of_int: "roundHalfEven (of_int n) = n"
  by (simp add: roundHalfEven_def)

lemma powr_powi: "(2::real) powr real_of_int j = 2 powi j"
  by (simp add: powr_real_of_int')

lemma binade:
  assumes "0 < t"
  shows "2 powi \<lfloor>log 2 t\<rfloor> \<le> t" and "t < 2 powi (\<lfloor>log 2 t\<rfloor> + 1)"
proof -
  have "2 powr real_of_int \<lfloor>log 2 t\<rfloor> \<le> t \<and> t < 2 powr real_of_int (\<lfloor>log 2 t\<rfloor> + 1)"
    using floor_log_eq_powr_iff [of t 2 "\<lfloor>log 2 t\<rfloor>"] assms by simp
  then show "2 powi \<lfloor>log 2 t\<rfloor> \<le> t" and "t < 2 powi (\<lfloor>log 2 t\<rfloor> + 1)"
    unfolding powr_powi by blast+
qed

lemma floor_log2_eq:
  assumes "2 powi k \<le> t" and "t < 2 powi (k + 1)"
  shows "\<lfloor>log 2 t\<rfloor> = k"
proof -
  have "0 < (2::real) powi k" by simp
  with assms(1) have "0 < t" by linarith
  then have "(\<lfloor>log 2 t\<rfloor> = k) =
      (2 powr real_of_int k \<le> t \<and> t < 2 powr real_of_int (k + 1))"
    by (intro floor_log_eq_powr_iff) simp_all
  with assms show ?thesis unfolding powr_powi by blast
qed

lemma pow2_grid:
  assumes "g \<le> j"
  shows "(2::real) powi j = of_int (2 ^ nat (j - g)) * 2 powi g"
proof -
  have "(2::real) powi j = 2 powi ((j - g) + g)" by simp
  also have "\<dots> = 2 powi (j - g) * 2 powi g" by (rule power_int_add) simp
  also have "2 powi (j - g) = (2::real) ^ nat (j - g)"
    using assms by (simp add: power_int_nonneg_exp)
  finally show ?thesis by simp
qed

lemma roundMagnitude_nonneg: "0 \<le> t \<Longrightarrow> 0 \<le> roundMagnitude t"
proof -
  assume "0 \<le> t"
  then have "of_int 0 \<le> t / 2 powi quantum t" by simp
  then have "0 \<le> roundHalfEven (t / 2 powi quantum t)" by (rule roundHalfEven_ge)
  then show ?thesis by (simp add: roundMagnitude_def)
qed

lemma roundMagnitude_ge_grid:
  assumes "0 < t" and "of_int k * 2 powi quantum t \<le> t"
  shows "of_int k * 2 powi quantum t \<le> roundMagnitude t"
proof -
  have p: "0 < (2::real) powi quantum t" by simp
  from assms(2) p have "of_int k \<le> t / 2 powi quantum t" by (simp add: pos_le_divide_eq)
  then have "k \<le> roundHalfEven (t / 2 powi quantum t)" by (rule roundHalfEven_ge)
  then have "real_of_int k * 2 powi quantum t
               \<le> of_int (roundHalfEven (t / 2 powi quantum t)) * 2 powi quantum t"
    using p by (simp add: mult_right_mono)
  with assms(1) show ?thesis by (simp add: roundMagnitude_def)
qed

lemma roundMagnitude_le_grid_half:
  assumes "0 < t" and "t < (of_int k + 1 / 2) * 2 powi quantum t"
  shows "roundMagnitude t \<le> of_int k * 2 powi quantum t"
proof -
  have p: "0 < (2::real) powi quantum t" by simp
  from assms(2) p have "t / 2 powi quantum t < of_int k + 1 / 2" by (simp add: pos_divide_less_eq)
  then have "roundHalfEven (t / 2 powi quantum t) \<le> k" by (rule roundHalfEven_le_half)
  then have "of_int (roundHalfEven (t / 2 powi quantum t)) * 2 powi quantum t
               \<le> real_of_int k * 2 powi quantum t"
    using p by (simp add: mult_right_mono)
  with assms(1) show ?thesis by (simp add: roundMagnitude_def)
qed

lemma roundMagnitude_le_grid:
  assumes "0 < t" and "t \<le> of_int k * 2 powi quantum t"
  shows "roundMagnitude t \<le> of_int k * 2 powi quantum t"
proof (rule roundMagnitude_le_grid_half [OF assms(1)])
  have "0 < (2::real) powi quantum t" by simp
  then have "real_of_int k * 2 powi quantum t < (of_int k + 1 / 2) * 2 powi quantum t"
    by (simp add: algebra_simps)
  with assms(2) show "t < (of_int k + 1 / 2) * 2 powi quantum t" by linarith
qed

lemma roundMagnitude_ge_pow2:
  assumes "0 < t" and "quantum t \<le> j" and "2 powi j \<le> t"
  shows "2 powi j \<le> roundMagnitude t"
  using roundMagnitude_ge_grid [OF assms(1), of "2 ^ nat (j - quantum t)"]
    pow2_grid [OF assms(2)] assms(3) by simp

lemma roundMagnitude_le_pow2:
  assumes "0 < t" and "quantum t \<le> j" and "t \<le> 2 powi j"
  shows "roundMagnitude t \<le> 2 powi j"
  using roundMagnitude_le_grid [OF assms(1), of "2 ^ nat (j - quantum t)"]
    pow2_grid [OF assms(2)] assms(3) by simp

lemma pow2_le_iff: "((2::real) powi i \<le> 2 powi j) = (i \<le> j)"
proof
  assume "(2::real) powi i \<le> 2 powi j"
  show "i \<le> j"
  proof (rule ccontr)
    assume "\<not> i \<le> j"
    then have "j < i" by simp
    then have "(2::real) powi j < 2 powi i" by (rule power_int_strict_increasing) simp
    with \<open>(2::real) powi i \<le> 2 powi j\<close> show False by simp
  qed
next
  assume "i \<le> j"
  then show "(2::real) powi i \<le> 2 powi j" by (rule power_int_increasing) simp
qed

lemma pow2_less_iff: "((2::real) powi i < 2 powi j) = (i < j)"
  using pow2_le_iff [of j i] by (simp add: not_le [symmetric])

lemma pow2_Suc: "(2::real) powi (j + 1) = 2 * 2 powi j"
  by (simp add: power_int_add)

lemma floor_log2_ge:
  assumes "2 powi k \<le> t"
  shows "k \<le> \<lfloor>log 2 t\<rfloor>"
proof -
  have "0 < (2::real) powi k" by simp
  with assms have "0 < t" by linarith
  from binade(2) [OF this] assms have "(2::real) powi k < 2 powi (\<lfloor>log 2 t\<rfloor> + 1)" by linarith
  then show ?thesis by (simp add: pow2_less_iff)
qed

lemma floor_log2_less:
  assumes "0 < t" and "t < 2 powi k"
  shows "\<lfloor>log 2 t\<rfloor> < k"
proof -
  from binade(1) [OF assms(1)] assms(2) have "(2::real) powi \<lfloor>log 2 t\<rfloor> < 2 powi k" by linarith
  then show ?thesis by (simp add: pow2_less_iff)
qed

lemma floor_log2_le:
  assumes "0 < t" and "t \<le> 2 powi k"
  shows "\<lfloor>log 2 t\<rfloor> \<le> k"
proof -
  from binade(1) [OF assms(1)] assms(2) have "(2::real) powi \<lfloor>log 2 t\<rfloor> \<le> 2 powi k" by linarith
  then show ?thesis by (simp add: pow2_le_iff)
qed

lemma quantum_normal:
  assumes "0 < t" and "2 powi (- 1022) \<le> t"
  shows "quantum t = \<lfloor>log 2 t\<rfloor> - 52"
proof -
  have "max (F - 52) (- 1074) = F - 52" if "- 1022 \<le> F" for F :: int
    using that by simp
  from this [OF floor_log2_ge [OF assms(2)]] show ?thesis
    unfolding quantum_def .
qed

lemma pow2_1024: "(2::real) ^ 53 * 2 powi 971 = 2 powi 1024"
  using pow2_grid [of 971 1024] by (simp del: power_int_numeral)

text \<open>The sum \<open>1 + a\<close> for a magnitude \<open>a\<close> that a \<open>double\<close> can hold: it does not overflow, it is
  at least \<open>1\<close> and at least \<open>a\<close>, and for \<open>a\<close> below \<open>2^-53\<close> it is exactly \<open>1\<close>.\<close>

lemma add_one_magnitude:
  fixes m e :: int
  assumes m0: "0 \<le> m" and m53: "m < 2 ^ 53" and e_lo: "- 1074 \<le> e" and e_hi: "e \<le> 971"
    and a: "a = of_int m * 2 powi e"
  shows "1 \<le> roundMagnitude (1 + a)"
    and "a \<le> roundMagnitude (1 + a)"
    and "roundMagnitude (1 + a) \<le> 2 * (1 + a)"
    and "roundMagnitude (1 + a) < 2 powi 1024"
    and "a < 2 powi (- 53) \<Longrightarrow> roundMagnitude (1 + a) = 1"
proof -
  define y where "y = 1 + a"
  define E where "E = \<lfloor>log 2 y\<rfloor>"
  have a0: "0 \<le> a" using m0 a by simp
  have y1: "1 \<le> y" and y0: "0 < y" using a0 by (simp_all add: y_def)
  have E0: "0 \<le> E" using floor_log2_ge [of 0 y] y1 by (simp add: E_def)
  have lo: "2 powi E \<le> y" and hi: "y < 2 powi (E + 1)"
    using binade [OF y0] by (simp_all add: E_def)
  have "(2::real) powi (- 1022) \<le> 2 powi 0" by (simp add: pow2_le_iff)
  with y1 have "2 powi (- 1022) \<le> y" by simp
  then have g: "quantum y = E - 52" using quantum_normal [OF y0] by (simp add: E_def)
  have d_lo: "2 powi E \<le> roundMagnitude y"
    by (rule roundMagnitude_ge_pow2 [OF y0 _ lo]) (simp add: g)
  have d_hi: "roundMagnitude y \<le> 2 powi (E + 1)"
    by (rule roundMagnitude_le_pow2 [OF y0]) (use hi in \<open>simp_all add: g\<close>)
  have "(2::real) powi 0 \<le> 2 powi E" using E0 by (simp only: pow2_le_iff)
  with d_lo show "1 \<le> roundMagnitude (1 + a)" by (simp add: y_def)
  have "roundMagnitude y \<le> 2 * 2 powi E" using d_hi by (simp add: pow2_Suc)
  with lo show "roundMagnitude (1 + a) \<le> 2 * (1 + a)" by (simp add: y_def)
  have am: "real_of_int m \<le> 2 ^ 53 - 1"
  proof -
    from m53 have "m \<le> 2 ^ 53 - 1" by simp
    then have "real_of_int m \<le> real_of_int (2 ^ 53 - 1)" by (simp only: of_int_le_iff)
    then show ?thesis by simp
  qed
  show "a \<le> roundMagnitude (1 + a)"
  proof (cases "a < 2 powi E")
    case True
    with d_lo show ?thesis by (simp add: y_def)
  next
    case False
    have "real_of_int m < 2 ^ 53" using am by simp
    then have "a < 2 ^ 53 * 2 powi e"
      unfolding a by (intro mult_strict_right_mono) simp_all
    also have "\<dots> = 2 powi (53 + e)" by (simp add: power_int_add)
    finally have "a < 2 powi (53 + e)" .
    with False have "(2::real) powi E < 2 powi (53 + e)" by linarith
    then have ge: "E - 52 \<le> e" by (simp add: pow2_less_iff)
    have "a = of_int (m * 2 ^ nat (e - (E - 52))) * 2 powi quantum y"
      unfolding a g using pow2_grid [OF ge] by simp
    moreover have "a \<le> y" by (simp add: y_def)
    ultimately show ?thesis
      using roundMagnitude_ge_grid [OF y0, of "m * 2 ^ nat (e - (E - 52))"]
      by (simp add: y_def)
  qed
  have a_max: "a \<le> (2 ^ 53 - 1) * 2 powi 971"
  proof -
    have "a \<le> (2 ^ 53 - 1) * 2 powi e"
      unfolding a using am by (intro mult_right_mono) simp_all
    also have "\<dots> \<le> (2 ^ 53 - 1) * 2 powi 971"
      using e_hi by (intro mult_left_mono) (simp_all add: pow2_le_iff del: power_int_numeral)
    finally show ?thesis .
  qed
  show "roundMagnitude (1 + a) < 2 powi 1024"
  proof (cases "E \<le> 1022")
    case True
    then have "(2::real) powi (E + 1) \<le> 2 powi 1023" by (simp only: pow2_le_iff; simp)
    also have "\<dots> < (2::real) powi 1024" by (simp only: pow2_less_iff; simp)
    finally show ?thesis using d_hi by (simp add: y_def)
  next
    case False
    have one: "(1::real) < 1 / 2 * 2 powi 971"
    proof -
      have "(2::real) powi 1 < 2 powi 970" by (simp only: pow2_less_iff; simp)
      moreover have "(2::real) powi 971 = 2 * 2 powi 970"
        using pow2_Suc [of 970] by simp
      ultimately show ?thesis by simp
    qed
    have "y < 2 powi 1024"
    proof -
      have "y < (2 ^ 53 - 1) * 2 powi 971 + 1 / 2 * 2 powi 971"
        using a_max one by (simp add: y_def)
      also have "\<dots> \<le> 2 ^ 53 * 2 powi 971" by (simp add: algebra_simps del: power_int_numeral)
      also have "\<dots> = 2 powi 1024" by (rule pow2_1024)
      finally show ?thesis .
    qed
    then have "E < 1024" unfolding E_def by (rule floor_log2_less [OF y0])
    with False have E: "E = 1023" by simp
    have qy: "quantum y = 971" using g E by simp
    have "y \<le> (2 ^ 53 - 1) * 2 powi 971 + 1" using a_max by (simp add: y_def)
    with one have "y < (of_int (2 ^ 53 - 1) + 1 / 2) * 2 powi 971"
      by (simp add: algebra_simps del: power_int_numeral)
    then have "y < (of_int (2 ^ 53 - 1) + 1 / 2) * 2 powi quantum y" by (simp only: qy)
    from roundMagnitude_le_grid_half [OF y0 this]
    have "roundMagnitude y \<le> of_int (2 ^ 53 - 1) * 2 powi 971" by (simp only: qy)
    then have "roundMagnitude y \<le> (2 ^ 53 - 1) * 2 powi 971" by (simp del: power_int_numeral)
    also have "\<dots> < 2 ^ 53 * 2 powi 971" by (simp add: algebra_simps del: power_int_numeral)
    also have "\<dots> = 2 powi 1024" by (rule pow2_1024)
    finally show ?thesis by (simp add: y_def del: power_int_numeral)
  qed
  show "roundMagnitude (1 + a) = 1" if small: "a < 2 powi (- 53)"
  proof -
    have "(2::real) powi (- 53) \<le> 2 powi 0" by (simp only: pow2_le_iff; simp)
    with small have "y < 2 powi (0 + 1)" by (simp add: y_def)
    with y1 have "E = 0" using floor_log2_eq [of 0 y] by (simp add: E_def)
    then have g52: "quantum y = - 52" by (simp add: g)
    have "a * 2 ^ 52 < 1 / 2"
    proof -
      have "a * 2 ^ 52 < 2 powi (- 53) * 2 ^ 52" using small by (intro mult_strict_right_mono) simp_all
      also have "\<dots> = 1 / 2" by (simp add: power_int_minus_divide)
      finally show ?thesis .
    qed
    then have "y < (of_int (2 ^ 52) + 1 / 2) * 2 powi (- 52)"
      by (simp add: y_def power_int_minus_divide field_simps)
    then have "y < (of_int (2 ^ 52) + 1 / 2) * 2 powi quantum y" by (simp only: g52)
    from roundMagnitude_le_grid_half [OF y0 this]
    have "roundMagnitude y \<le> of_int (2 ^ 52) * 2 powi (- 52)" by (simp only: g52)
    then have "roundMagnitude y \<le> 1" by (simp add: power_int_minus_divide)
    with \<open>1 \<le> roundMagnitude (1 + a)\<close> show ?thesis by (simp add: y_def)
  qed
qed

lemma roundMagnitude_grid:
  assumes "0 < t" and "t = of_int k * 2 powi quantum t"
  shows "roundMagnitude t = t"
proof -
  have "roundMagnitude t \<le> of_int k * 2 powi quantum t"
    by (rule roundMagnitude_le_grid [OF assms(1)]) (use assms(2) in simp)
  moreover have "of_int k * 2 powi quantum t \<le> roundMagnitude t"
    by (rule roundMagnitude_ge_grid [OF assms(1)]) (use assms(2) in simp)
  ultimately show ?thesis using assms(2) by simp
qed

lemma add_one_gap:
  fixes m e :: int
  assumes m0: "0 \<le> m" and m53: "m < 2 ^ 53" and e_lo: "- 1074 \<le> e" and e_hi: "e \<le> 971"
    and a: "a = of_int m * 2 powi e" and small: "a < 2 ^ 53"
  shows "a < roundMagnitude (1 + a) * (1 - 2 powi (- 54))"
proof -
  define y where "y = 1 + a"
  define E where "E = \<lfloor>log 2 y\<rfloor>"
  define d where "d = roundMagnitude y"
  have a0: "0 \<le> a" using m0 a by simp
  have y1: "1 \<le> y" and y0: "0 < y" using a0 by (simp_all add: y_def)
  have E0: "0 \<le> E" using floor_log2_ge [of 0 y] y1 by (simp add: E_def)
  have lo: "2 powi E \<le> y" and hi: "y < 2 powi (E + 1)"
    using binade [OF y0] by (simp_all add: E_def)
  have "(2::real) powi (- 1022) \<le> 2 powi 0" by (simp add: pow2_le_iff)
  with y1 have "2 powi (- 1022) \<le> y" by simp
  then have g: "quantum y = E - 52" using quantum_normal [OF y0] by (simp add: E_def)
  have d_lo: "2 powi E \<le> d" unfolding d_def
    by (rule roundMagnitude_ge_pow2 [OF y0 _ lo]) (simp add: g)
  have d_hi: "d \<le> 2 * 2 powi E"
  proof -
    have "roundMagnitude y \<le> 2 powi (E + 1)"
      by (rule roundMagnitude_le_pow2 [OF y0]) (use hi in \<open>simp_all add: g\<close>)
    then show ?thesis by (simp add: pow2_Suc d_def)
  qed
  have c54: "(2::real) powi (- 54) = 1 / 2 ^ 54" by (simp add: power_int_minus_divide)
  have a_lt: "a < 2 ^ 53 * 2 powi e"
  proof -
    from m53 have "real_of_int m < real_of_int (2 ^ 53)" by (simp only: of_int_less_iff)
    then have "real_of_int m < 2 ^ 53" by simp
    then show ?thesis unfolding a by (intro mult_strict_right_mono) simp_all
  qed
  have "a < d * (1 - 2 powi (- 54))"
  proof (cases "a < 2 powi E")
    case True
    have u53: "(2::real) powi E = 2 ^ 53 * 2 powi (E - 53)"
      using pow2_grid [of "E - 53" E] by simp
    have "a \<le> 2 powi E - 2 powi (E - 53)"
    proof (cases "E - 53 \<le> e")
      case ge: True
      define K where "K = m * 2 ^ nat (e - (E - 53))"
      have aK: "a = of_int K * 2 powi (E - 53)"
        unfolding a K_def using pow2_grid [OF ge] by simp
      have "real_of_int K * 2 powi (E - 53) < 2 ^ 53 * 2 powi (E - 53)"
        using True aK u53 by simp
      then have "real_of_int K < 2 ^ 53" by (simp add: mult_less_cancel_right)
      then have "real_of_int K < real_of_int (2 ^ 53)" by simp
      then have "K < 2 ^ 53" by (simp only: of_int_less_iff)
      then have "K \<le> 2 ^ 53 - 1" by simp
      then have "real_of_int K \<le> real_of_int (2 ^ 53 - 1)" by (simp only: of_int_le_iff)
      then have "real_of_int K \<le> 2 ^ 53 - 1" by simp
      then have "real_of_int K * 2 powi (E - 53) \<le> (2 ^ 53 - 1) * 2 powi (E - 53)"
        by (intro mult_right_mono) simp_all
      then show ?thesis using aK u53 by (simp add: algebra_simps)
    next
      case False
      then have "e \<le> E - 54" by simp
      then have "(2::real) powi e \<le> 2 powi (E - 54)" by (simp only: pow2_le_iff)
      then have "2 ^ 53 * (2::real) powi e \<le> 2 ^ 53 * 2 powi (E - 54)" by simp
      with a_lt have "a < 2 ^ 53 * 2 powi (E - 54)" by linarith
      also have "\<dots> \<le> (2 ^ 54 - 2) * 2 powi (E - 54)"
        by (intro mult_right_mono) simp_all
      also have "\<dots> = 2 powi E - 2 powi (E - 53)"
        using pow2_grid [of "E - 54" E] pow2_grid [of "E - 54" "E - 53"]
        by (simp add: algebra_simps)
      finally show ?thesis by simp
    qed
    note a_gap = this
    define W where "W = (2::real) powi (E - 53)"
    have Wpos: "0 < W" by (simp add: W_def)
    have aW: "a \<le> (2 ^ 53 - 1) * W" using a_gap u53 by (simp add: W_def algebra_simps)
    have dW: "2 ^ 53 * W \<le> d" using d_lo u53 by (simp add: W_def)
    from Wpos aW dW show ?thesis unfolding c54 by (simp add: field_simps)
  next
    case False
    with a_lt have "(2::real) powi E < 2 ^ 53 * 2 powi e" by linarith
    also have "\<dots> = 2 powi (53 + e)" by (simp add: power_int_add)
    finally have ge: "E - 52 \<le> e" by (simp add: pow2_less_iff)
    from False small have "(2::real) powi E < 2 powi 53" by simp
    then have E52: "E - 52 \<le> 0" by (simp only: pow2_less_iff; simp)
    define A where "A = m * 2 ^ nat (e - (E - 52))"
    define B :: int where "B = 2 ^ nat (0 - (E - 52))"
    have aA: "real_of_int A * 2 powi (E - 52) = a"
      unfolding a A_def using pow2_grid [OF ge] by simp
    have oneB: "real_of_int B * 2 powi (E - 52) = 1"
      unfolding B_def using pow2_grid [OF E52] by simp
    have "real_of_int (A + B) * 2 powi (E - 52)
            = of_int A * 2 powi (E - 52) + of_int B * 2 powi (E - 52)"
      by (simp add: distrib_right)
    also have "\<dots> = a + 1" by (simp only: aA oneB)
    finally have "of_int (A + B) * 2 powi (E - 52) = y" by (simp add: y_def)
    then have "y = of_int (A + B) * 2 powi quantum y" by (simp only: g)
    from roundMagnitude_grid [OF y0 this] have "d = 1 + a" by (simp add: d_def y_def)
    with small show ?thesis unfolding c54 by (simp add: field_simps)
  qed
  then show ?thesis by (simp add: d_def y_def)
qed

lemma round_quotient:
  assumes "0 < q" and "q \<le> 1" and "2 powi (- 1074) \<le> q"
  shows "0 < roundMagnitude q" and "roundMagnitude q \<le> 1"
    and "q < 1 - 2 powi (- 54) \<Longrightarrow> roundMagnitude q < 1"
proof -
  define E where "E = \<lfloor>log 2 q\<rfloor>"
  have E0: "E \<le> 0" using floor_log2_le [OF assms(1), of 0] assms(2) by (simp add: E_def)
  have lo: "2 powi E \<le> q" using binade(1) [OF assms(1)] by (simp add: E_def)
  have g: "quantum q = max (E - 52) (- 1074)" by (simp add: quantum_def E_def)
  have g0: "quantum q \<le> - 52" using E0 by (simp add: g)
  have "roundMagnitude q \<le> 2 powi 0"
    by (rule roundMagnitude_le_pow2 [OF assms(1)]) (use g0 assms(2) in simp_all)
  then show "roundMagnitude q \<le> 1" by simp
  have "(2::real) powi (E - 52) \<le> 2 powi E" by (simp only: pow2_le_iff; simp)
  with lo assms(3) have "2 powi quantum q \<le> q" by (simp add: g max_def)
  from roundMagnitude_ge_pow2 [OF assms(1) _ this]
  have "2 powi quantum q \<le> roundMagnitude q" by simp
  moreover have "0 < (2::real) powi quantum q" by simp
  ultimately show "0 < roundMagnitude q" by linarith
  show "roundMagnitude q < 1" if strict: "q < 1 - 2 powi (- 54)"
  proof (cases "q \<le> 2 powi (- 1)")
    case True
    have "roundMagnitude q \<le> 2 powi (- 1)"
      by (rule roundMagnitude_le_pow2 [OF assms(1)]) (use g0 True in simp_all)
    then show ?thesis by (simp add: power_int_minus_divide)
  next
    case False
    then have "- 1 \<le> E" using floor_log2_ge [of "- 1" q] by (simp add: E_def)
    moreover have "E < 0"
    proof -
      have "q < 2 powi 0" using strict by (simp add: power_int_minus_divide)
      from floor_log2_less [OF assms(1) this] show ?thesis by (simp add: E_def)
    qed
    ultimately have "E = - 1" by simp
    then have g53: "quantum q = - 53" by (simp add: g)
    have "q < (of_int (2 ^ 53 - 1) + 1 / 2) * 2 powi (- 53)"
      using strict by (simp add: power_int_minus_divide field_simps)
    then have "q < (of_int (2 ^ 53 - 1) + 1 / 2) * 2 powi quantum q" by (simp only: g53)
    from roundMagnitude_le_grid_half [OF assms(1) this]
    have "roundMagnitude q \<le> of_int (2 ^ 53 - 1) * 2 powi (- 53)" by (simp only: g53)
    then show ?thesis by (simp add: power_int_minus_divide)
  qed
qed

lemma dadd_one:
  assumes "0 \<le> a" and "roundMagnitude (1 + a) < 2 powi 1024"
  shows "dadd double_one (Finite False a) = Finite False (roundMagnitude (1 + a))"
proof -
  have "\<bar>1 + a\<bar> = 1 + a" and "1 + a \<noteq> 0" and "\<not> 1 + a < 0" using assms(1) by simp_all
  with assms(2) show ?thesis
    by (simp add: double_one_def signedValue_def roundToDouble_def Let_def del: power_int_numeral)
qed

text \<open>
  Claim C9, as amended. For every finite \<open>double\<close> \<open>x\<close> (sign \<open>s\<close>, magnitude \<open>m * 2^e\<close>),
  \<open>FastSigmoidNeuron::function(x)\<close> is a finite \<open>double\<close> with the sign of \<open>x\<close> and a
  magnitude of at most \<open>1\<close>; the magnitude is \<open>0\<close> exactly when \<open>x\<close> is zero, and it is
  strictly below \<open>1\<close> whenever \<open>|x| < 2^53\<close>. From \<open>2^53\<close> on, \<open>1 + |x|\<close> can round to
  \<open>|x|\<close>, and the quotient is then exactly \<open>1\<close> or \<open>-1\<close>.
\<close>

theorem FastSigmoidNeuron_function_bounds:
  fixes m e :: int
  assumes m0: "0 \<le> m" and m53: "m < 2 ^ 53" and e_lo: "- 1074 \<le> e" and e_hi: "e \<le> 971"
  shows "\<exists>r. FastSigmoidNeuron_function (Finite s (of_int m * 2 powi e)) = Finite s r
            \<and> 0 \<le> r \<and> r \<le> 1 \<and> (r = 0) = (m = 0)
            \<and> (real_of_int m * 2 powi e < 2 ^ 53 \<longrightarrow> r < 1)"
proof -
  define a :: real where "a = of_int m * 2 powi e"
  define d where "d = roundMagnitude (1 + a)"
  note facts = add_one_magnitude [OF m0 m53 e_lo e_hi a_def, folded d_def]
  have a0: "0 \<le> a" using m0 by (simp add: a_def)
  have d1: "1 \<le> d" and ad: "a \<le> d" and d2: "d \<le> 2 * (1 + a)" and dfin: "d < 2 powi 1024"
    using facts by blast+
  have sum: "dadd double_one (Finite False a) = Finite False d"
    unfolding d_def by (rule dadd_one [OF a0]) (use dfin in \<open>simp only: d_def\<close>)
  have d0: "d \<noteq> 0" using d1 by simp
  have F: "FastSigmoidNeuron_function (Finite s a) = roundToDouble s (a / d)"
    using d0 by (simp add: FastSigmoidNeuron_function_def sum)
  have big: "(1::real) < 2 powi 1024"
  proof -
    have "(2::real) powi 0 < 2 powi 1024" by (simp only: pow2_less_iff; simp)
    then show ?thesis by (simp del: power_int_numeral)
  qed
  show ?thesis
  proof (cases "m = 0")
    case True
    then have "a = 0" by (simp add: a_def)
    then have "FastSigmoidNeuron_function (Finite s a) = Finite s 0"
      using F big by (simp add: roundToDouble_def roundMagnitude_def del: power_int_numeral)
    with True show ?thesis unfolding a_def by simp
  next
    case False
    with m0 have "1 \<le> m" by simp
    then have "real_of_int 1 \<le> real_of_int m" by (simp only: of_int_le_iff)
    then have "1 * 2 powi e \<le> a" unfolding a_def by (intro mult_right_mono) simp_all
    moreover have "(2::real) powi (- 1074) \<le> 2 powi e" using e_lo by (simp only: pow2_le_iff)
    ultimately have amin: "2 powi (- 1074) \<le> a" by simp
    have apos: "0 < a"
    proof -
      have "0 < (2::real) powi (- 1074)" by simp
      with amin show ?thesis by linarith
    qed
    define q where "q = a / d"
    have q0: "0 < q" using apos d1 by (simp add: q_def)
    have q1: "q \<le> 1" using ad d1 by (simp add: q_def)
    have qmin: "2 powi (- 1074) \<le> q"
    proof (cases "a < 2 powi (- 53)")
      case True
      with facts have "d = 1" by blast
      with amin show ?thesis by (simp add: q_def)
    next
      case False
      have c: "(2::real) powi (- 1074) \<le> 2 powi (- 55)" by (simp only: pow2_le_iff; simp)
      have "2 powi (- 55) * d \<le> a"
        using False d2 by (simp add: power_int_minus_divide)
      moreover have "2 powi (- 1074) * d \<le> 2 powi (- 55) * d"
        using c d1 by (intro mult_right_mono) simp_all
      ultimately have "2 powi (- 1074) * d \<le> a" by linarith
      then show ?thesis using d1 by (simp add: q_def pos_le_divide_eq)
    qed
    define r where "r = roundMagnitude q"
    note rq = round_quotient [OF q0 q1 qmin, folded r_def]
    have r0: "0 < r" and r1: "r \<le> 1" using rq by blast+
    have "\<not> 2 powi 1024 \<le> r" using r1 big by linarith
    then have "FastSigmoidNeuron_function (Finite s a) = Finite s r"
      using F by (simp add: roundToDouble_def r_def q_def del: power_int_numeral)
    moreover have "r < 1" if "a < 2 ^ 53"
    proof -
      have "a < d * (1 - 2 powi (- 54))"
        unfolding d_def by (rule add_one_gap [OF m0 m53 e_lo e_hi a_def that])
      then have "q < 1 - 2 powi (- 54)" using d1 by (simp add: q_def pos_divide_less_eq mult.commute)
      with rq show ?thesis by blast
    qed
    ultimately show ?thesis using False r0 r1 unfolding a_def by auto
  qed
qed

lemma FastSigmoidNeuron_function_special:
  "FastSigmoidNeuron_function NaN = NaN"
  "FastSigmoidNeuron_function (Infinity s) = NaN"
  by (simp_all add: FastSigmoidNeuron_function_def double_one_def)

lemma quantum_eq:
  assumes "2 powi k \<le> t" and "t < 2 powi (k + 1)" and "- 1022 \<le> k"
  shows "quantum t = k - 52"
  using floor_log2_eq [OF assms(1,2)] assms(3) by (simp add: quantum_def)

lemma round_1e17: "roundMagnitude (1 + 10 ^ 17) = 10 ^ 17"
proof -
  have g: "quantum (1 + 10 ^ 17) = 4"
    using quantum_eq [of 56 "1 + 10 ^ 17"] by simp
  have pos: "(0::real) < 1 + 10 ^ 17" by simp
  have "(1::real) + 10 ^ 17 < (of_int 6250000000000000 + 1 / 2) * 2 powi quantum (1 + 10 ^ 17)"
    unfolding g by simp
  from roundMagnitude_le_grid_half [OF pos this]
  have "roundMagnitude (1 + 10 ^ 17) \<le> 10 ^ 17" unfolding g by simp
  moreover have "real_of_int 6250000000000000 * 2 powi quantum (1 + 10 ^ 17) \<le> 1 + 10 ^ 17"
    unfolding g by simp
  from roundMagnitude_ge_grid [OF pos this]
  have "10 ^ 17 \<le> roundMagnitude (1 + 10 ^ 17)" unfolding g by simp
  ultimately show ?thesis by simp
qed

lemma round_1: "roundMagnitude 1 = 1"
proof -
  have g: "quantum 1 = - 52" using quantum_eq [of 0 1] by simp
  have "(1::real) = of_int (2 ^ 52) * 2 powi quantum 1" unfolding g by simp
  from roundMagnitude_grid [OF _ this] show ?thesis by simp
qed

lemma FastSigmoidNeuron_function_at_1e17:
  "FastSigmoidNeuron_function (Finite False (10 ^ 17)) = Finite False 1"
proof -
  have big1: "(1::real) < 2 powi 1024" by simp
  have big2: "(10::real) ^ 17 < 2 powi 1024" by simp
  have "roundMagnitude (1 + 10 ^ 17) < 2 powi 1024"
    using big2 by (simp only: round_1e17)
  then have "dadd double_one (Finite False (10 ^ 17)) = Finite False (roundMagnitude (1 + 10 ^ 17))"
    by (intro dadd_one) simp_all
  then have sum: "dadd double_one (Finite False (10 ^ 17)) = Finite False (10 ^ 17)"
    by (simp only: round_1e17)
  have "ddiv (Finite False (10 ^ 17)) (Finite False (10 ^ 17)) = roundToDouble False 1"
    by simp
  also have "\<dots> = Finite False 1"
    using big1 by (simp add: roundToDouble_def round_1 del: power_int_numeral)
  finally show ?thesis
    by (simp only: FastSigmoidNeuron_function_def dabs.simps sum)
qed

text \<open>
  Claim C9 as first stated asks for a value strictly between \<open>-1\<close> and \<open>1\<close> for every
  input. At \<open>x = 10^17\<close>, which is \<open>6250000000000000 * 2^4\<close> and so a \<open>double\<close>, the sum
  \<open>1 + 10^17\<close> lies between the neighbours \<open>10^17\<close> and \<open>10^17 + 16\<close> and rounds to
  \<open>10^17\<close>; the quotient is exactly \<open>1\<close>.
\<close>

theorem FastSigmoidNeuron_function_1e17:
  "(10::real) ^ 17 = of_int 6250000000000000 * 2 powi 4
   \<and> (0::int) \<le> 6250000000000000 \<and> (6250000000000000::int) < 2 ^ 53
   \<and> FastSigmoidNeuron_function (Finite False (10 ^ 17)) = Finite False 1"
  using FastSigmoidNeuron_function_at_1e17 by simp

theorem FastSigmoidNeuron_function_bounds_witness:
  "(0::int) \<le> 1 \<and> (1::int) < 2 ^ 53 \<and> (- 1074::int) \<le> 0 \<and> (0::int) \<le> 971
   \<and> (\<exists>r. FastSigmoidNeuron_function (Finite True 1) = Finite True r
          \<and> 0 \<le> r \<and> r \<le> 1 \<and> r \<noteq> 0 \<and> r < 1)"
  using FastSigmoidNeuron_function_bounds [of 1 0 True] by simp

lemma round_2: "roundMagnitude 2 = 2"
proof -
  have g: "quantum 2 = - 51" using quantum_eq [of 1 2] by simp
  have "(2::real) = of_int (2 ^ 52) * 2 powi quantum 2" unfolding g by simp
  from roundMagnitude_grid [OF _ this] show ?thesis by simp
qed

lemma round_half: "roundMagnitude (1 / 2) = 1 / 2"
proof -
  have g: "quantum (1 / 2) = - 53" using quantum_eq [of "- 1" "1 / 2"] by simp
  have "(1 / 2 :: real) = of_int (2 ^ 52) * 2 powi quantum (1 / 2)" unfolding g by simp
  from roundMagnitude_grid [OF _ this] show ?thesis by simp
qed

text \<open>An ordinary value: at \<open>x = -1\<close> the sum is \<open>2\<close> and the quotient \<open>-1/2\<close>, both exact.\<close>

lemma FastSigmoidNeuron_function_at_one:
  "FastSigmoidNeuron_function (Finite True 1) = Finite True (1 / 2)"
proof -
  have big: "(2::real) < 2 powi 1024" by simp
  then have "roundMagnitude (1 + 1) < 2 powi 1024" by (simp only: one_add_one round_2)
  then have "dadd double_one (Finite False 1) = Finite False (roundMagnitude (1 + 1))"
    by (intro dadd_one) simp_all
  then have sum: "dadd double_one (Finite False 1) = Finite False 2"
    by (simp only: one_add_one round_2)
  have "ddiv (Finite True 1) (Finite False 2) = roundToDouble True (1 / 2)" by simp
  also have "\<dots> = Finite True (1 / 2)"
    using big by (simp add: roundToDouble_def round_half del: power_int_numeral)
  finally show ?thesis
    by (simp only: FastSigmoidNeuron_function_def dabs.simps sum)
qed

lemma DropoutNeuron_function_value:
  "fst (DropoutNeuron_function N coinToss x g) = (if fst (coinToss g) then 0 else N x)"
  by (simp add: DropoutNeuron_function_def split: prod.split)

lemma DropoutNeuron_function_generator:
  "snd (DropoutNeuron_function N coinToss x g) = snd (coinToss g)"
  by (simp add: DropoutNeuron_function_def split: prod.split)

text \<open>
  Claim C10. For every input \<open>x\<close> and every outcome of the coin toss drawn from the
  process-wide generator, \<open>DropoutNeuron<Neuron>::function(x)\<close> returns \<open>0\<close> when the toss
  succeeds and \<open>Neuron::function(x)\<close> otherwise, and the generator advances by that one
  toss. The value is not determined by \<open>x\<close> alone: from two generator states the same \<open>x\<close>
  gives the same value exactly when the two tosses agree or \<open>Neuron::function(x)\<close> is
  itself \<open>0\<close>.
\<close>

theorem DropoutNeuron_function_toss:
  "fst (DropoutNeuron_function N coinToss x g) = (if fst (coinToss g) then 0 else N x)
   \<and> snd (DropoutNeuron_function N coinToss x g) = snd (coinToss g)
   \<and> (fst (DropoutNeuron_function N coinToss x g1) = fst (DropoutNeuron_function N coinToss x g2))
       = (fst (coinToss g1) = fst (coinToss g2) \<or> N x = 0)"
  by (auto simp add: DropoutNeuron_function_value DropoutNeuron_function_generator)

text \<open>
  The same input, two generator states, two different values: with the linear neuron and
  \<open>x = 1\<close> the dropout neuron returns \<open>0\<close> when the next toss is true and \<open>1\<close> when it is
  false.
\<close>

lemma DropoutNeuron_function_two_values:
  "DropoutNeuron_function LinearNeuron_function scriptedCoinToss 1 [True] = (0, [])
   \<and> DropoutNeuron_function LinearNeuron_function scriptedCoinToss 1 [False] = (1, [])"
  by (simp add: DropoutNeuron_function_def LinearNeuron_function_def)


section \<open>Properties of the CSV import\<close>

lemma check_labels_min_zero_stays:
  "check_labels ls c = Inr c' \<Longrightarrow> minPositiveLabel c = 0 \<Longrightarrow> minPositiveLabel c' = 0"
  by (induction ls arbitrary: c) (auto split: if_splits)

lemma check_labels_finds_zero:
  "check_labels ls c = Inr c' \<Longrightarrow> 0 \<in> set ls \<Longrightarrow> 0 \<le> minPositiveLabel c
     \<Longrightarrow> minPositiveLabel c' = 0"
proof (induction ls arbitrary: c)
  case Nil
  then show ?case by simp
next
  case (Cons l ls)
  show ?case
  proof (cases "l = 0")
    case True
    with Cons.prems show ?thesis
      by (auto split: if_splits dest: check_labels_min_zero_stays)
  next
    case False
    with Cons.prems have "0 \<in> set ls" by simp
    with Cons.prems Cons.IH show ?thesis
      by (auto split: if_splits)
  qed
qed

lemma check_labels_binary_stays:
  "check_labels ls c = Inr c' \<Longrightarrow> binaryLabels c \<Longrightarrow> binaryLabels c'"
  by (induction ls arbitrary: c) (auto split: if_splits)

lemma check_labels_finds_minus_one:
  "check_labels ls c = Inr c' \<Longrightarrow> - 1 \<in> set ls \<Longrightarrow> binaryLabels c'"
  by (induction ls arbitrary: c) (auto split: if_splits dest: check_labels_binary_stays)

lemma check_labels_error:
  "check_labels ls c = Inl e \<Longrightarrow> e = SharkException negative_labels_message"
  by (induction ls arbitrary: c) (auto split: if_splits)

text \<open>
  The part of the label check that does not depend on the order of the rows: rows that
  hold the label \<open>-1\<close> and the label \<open>0\<close> are refused, whatever else they hold.
\<close>

lemma labeledDataFromRows_refuses_zero:
  assumes "- 1 \<in> fst ` set rows" and "0 \<in> fst ` set rows"
  shows "labeledDataFromRows optimalBatchSizes rows maximumBatchSize
           = Inl (SharkException negative_labels_message)"
proof (cases "check_labels (map fst rows) label_check_init")
  case (Inl e)
  with assms show ?thesis
    by (auto simp: labeledDataFromRows_def dest: check_labels_error)
next
  case (Inr c)
  have "0 \<le> minPositiveLabel label_check_init"
    by (simp add: label_check_init_def INT_MAX_def)
  with Inr assms have "minPositiveLabel c = 0"
    using check_labels_finds_zero [of "map fst rows" label_check_init c] by simp
  moreover from Inr assms have "binaryLabels c"
    using check_labels_finds_minus_one [of "map fst rows" label_check_init c] by simp
  ultimately have "labels_rejected c" by (simp add: labels_rejected_def)
  with Inr assms show ?thesis
    by (auto simp: labeledDataFromRows_def)
qed

text \<open>
  The part that does: with the label \<open>-1\<close>, the labels \<open>2\<close> and \<open>3\<close> are refused in
  ascending order and accepted in descending order, where every label lowers
  \<open>minPositiveLabel\<close> and none reaches the comparison with \<open>maxPositiveLabel\<close>.
\<close>

lemma labeledDataFromRows_order_dependent:
  "labeledDataFromRows (\<lambda>n m. [n]) [(- 1, [a]), (2, [b]), (3, [c])] 256
     = Inl (SharkException negative_labels_message)
   \<and> labeledDataFromRows (\<lambda>n m. [n]) [(- 1, [a]), (3, [c]), (2, [b])] 256
     = Inr [\<lparr>input = [[a], [c], [b]], label = [0, 2, 1]\<rparr>]"
  by (simp add: labeledDataFromRows_def label_check_init_def INT_MAX_def labels_rejected_def
      convert_label_def c_div_def to_unsigned_def)

text \<open>
  Claim C8. \<open>csvStringToData\<close> into \<open>LabeledData<RealVector, unsigned int>\<close> is to throw
  whenever the parsed rows hold the label \<open>-1\<close> together with a label equal to \<open>0\<close> or
  greater than \<open>1\<close>, in every order of the rows. The code does not: for the two rows with
  the labels \<open>-1\<close> and \<open>2\<close> (the file \<open>-1,0.5\<close> / \<open>2,1.5\<close>, label first, separator
  comma), the label \<open>2\<close> is below the initial \<open>minPositiveLabel\<close>, so it is stored there and
  never compared with \<open>maxPositiveLabel\<close>, which stays \<open>-1\<close>; the test after the loop lets
  the rows pass, and the dataset is built with the labels \<open>0\<close> and \<open>1\<close>.
\<close>

theorem csvStringToData_accepts_minus_one_with_two:
  "check_labels [- 1, 2] label_check_init
     = Inr \<lparr>binaryLabels = True, minPositiveLabel = 2, maxPositiveLabel = - 1\<rparr>
   \<and> csvStringToData (\<lambda>contents lp separator comment. Inr [(- 1, [1 / 2 :: real]), (2, [3 / 2])])
        (\<lambda>n m. [n]) contents FIRST_COLUMN CHR '','' CHR ''#'' 256
     = Inr [\<lparr>input = [[1 / 2], [3 / 2]], label = [0, 1]\<rparr>]"
  by (simp add: csvStringToData_def labeledDataFromRows_def label_check_init_def INT_MAX_def
      labels_rejected_def convert_label_def c_div_def to_unsigned_def)


section \<open>Properties of the CMA-ES search\<close>

lemma fitness_less_irrefl: "\<not> fitness_less a a"
  by (cases a) auto

lemma fitness_less_asym: "fitness_less a b \<Longrightarrow> \<not> fitness_less b a"
  by (cases a; cases b) auto

lemma updateBest_Some:
  "\<exists>b'. updateBest (Some b) population = Some b'
        \<and> fitness_le (bestFitness b') (bestFitness b)"
  by (cases population) (auto simp: fitness_le_def fitness_less_irrefl fitness_less_asym)

lemma fitness_le_refl: "fitness_le a a"
  by (simp add: fitness_le_def fitness_less_irrefl)

lemma fitness_le_total: "fitness_le a b \<or> fitness_le b a"
  by (cases a; cases b) (auto simp: fitness_le_def)

lemma fitness_le_trans: "fitness_le a b \<Longrightarrow> fitness_le b c \<Longrightarrow> fitness_le a c"
  by (cases a; cases b; cases c) (auto simp: fitness_le_def)

lemma set_insertRanked: "set (insertRanked i js) = insert i (set js)"
  by (induction js) auto

lemma set_rankPopulation: "set (rankPopulation is) = set is"
  by (induction "is") (auto simp: set_insertRanked)

lemma isRanked_insertRanked: "isRanked js \<Longrightarrow> isRanked (insertRanked i js)"
proof (induction js)
  case Nil
  then show ?case by (simp add: isRanked_def)
next
  case (Cons j js)
  then show ?case
    using fitness_le_total [of "fitnessOf i" "fitnessOf j"]
    by (auto simp: isRanked_def set_insertRanked intro: fitness_le_trans)
qed

lemma isRanked_rankPopulation: "isRanked (rankPopulation is)"
proof (induction "is")
  case Nil
  show ?case by (simp add: isRanked_def)
next
  case (Cons i "is")
  then show ?case by (simp add: isRanked_insertRanked)
qed

text \<open>
  The best solution after a generation is at least as good as every individual of that
  generation: comparing with the first of the ranked population is comparing with all.
\<close>

lemma updateBest_below_population:
  assumes "updateBest b (rankPopulation population) = Some b'" and "i \<in> set population"
  shows "fitness_le (bestFitness b') (fitnessOf i)"
proof -
  from assms(2) have mem: "i \<in> set (rankPopulation population)"
    by (simp add: set_rankPopulation)
  then obtain j js where r: "rankPopulation population = j # js"
    by (cases "rankPopulation population") auto
  have "isRanked (j # js)" using isRanked_rankPopulation [of population] r by simp
  with mem r have ji: "fitness_le (fitnessOf j) (fitnessOf i)"
    by (auto simp: isRanked_def fitness_le_refl)
  show ?thesis
  proof (cases b)
    case None
    with assms(1) r ji show ?thesis by auto
  next
    case (Some b0)
    show ?thesis
    proof (cases "fitness_less (fitnessOf j) (bestFitness b0)")
      case True
      with Some assms(1) r ji show ?thesis by auto
    next
      case False
      then have "fitness_le (bestFitness b0) (fitnessOf j)" by (simp add: fitness_le_def)
      with False Some assms(1) r ji show ?thesis by (auto intro: fitness_le_trans)
    qed
  qed
qed

text \<open>
  Claim C4. After \<open>init\<close>, \<open>bestSolutionFitness()\<close> is non-increasing across successive
  \<open>run()\<close> calls: when a search reports a best fitness and \<open>run\<close> succeeds, the search
  reports a best fitness afterwards too, and it is no worse than the one before. This
  holds for every objective, random source and adaptation.
\<close>

theorem run_bestSolutionFitness_monotone:
  assumes "run standardNormal adapt c g = Inr (c', g')"
    and "bestSolutionFitness c = Inr f"
  shows "\<exists>f'. bestSolutionFitness c' = Inr f' \<and> fitness_le f' f"
proof -
  from assms(2) obtain s b where
    c: "c = Initialized s" and b: "best s = Some b" and f: "f = bestFitness b"
    by (auto simp: bestSolutionFitness_def split: CMASearch.splits option.splits)
  obtain population g1 where sp:
    "samplePopulation standardNormal (objective s) (state s) (lambda (parameters s)) g
       = (population, g1)"
    by (cases "samplePopulation standardNormal (objective s) (state s) (lambda (parameters s)) g")
  from assms(1) c sp obtain st where
    c': "c' = Initialized
               (s\<lparr>state := st\<lparr>generationCount := Suc (generationCount (state s))\<rparr>,
                  best := updateBest (best s) (rankPopulation population)\<rparr>)"
    by (auto simp: run_def Let_def split: sum.splits)
  from updateBest_Some [of b "rankPopulation population"] obtain b' where
    "updateBest (Some b) (rankPopulation population) = Some b'"
    "fitness_le (bestFitness b') (bestFitness b)"
    by blast
  with c' b f show ?thesis by (simp add: bestSolutionFitness_def)
qed

lemma run_searchAtOne:
  "run scriptedNormal keepDistribution searchAtOne [1 / 2, - 1 / 2] = Inr (searchAfterRun, [])"
  by (simp add: run_def searchAtOne_def searchAfterRun_def sphere_def plainParameters_def
      keepDistribution_def sampleOne_def matVec_def fitness_le_def Let_def numeral_2_eq_2)

lemma bestSolutionFitness_searchAtOne: "bestSolutionFitness searchAtOne = Inr (Value 1)"
  by (simp add: bestSolutionFitness_def searchAtOne_def)

theorem run_bestSolutionFitness_monotone_witness:
  "run scriptedNormal keepDistribution searchAtOne [1 / 2, - 1 / 2] = Inr (searchAfterRun, [])
   \<and> bestSolutionFitness searchAtOne = Inr (Value 1)
   \<and> (\<exists>f'. bestSolutionFitness searchAfterRun = Inr f' \<and> fitness_le f' (Value 1))"
  using run_bestSolutionFitness_monotone
          [OF run_searchAtOne bestSolutionFitness_searchAtOne]
        run_searchAtOne bestSolutionFitness_searchAtOne
  by simp

text \<open>
  Claim C6. For every objective and start vector, \<open>init\<close> with \<open>initialSigma <= 0\<close> fails
  with \<open>InvalidArgument\<close>: no search comes back, with a corrected step size or otherwise.
\<close>

theorem init_nonpositive_sigma_InvalidArgument:
  "initialSigma \<le> 0
     \<Longrightarrow> init deriveParameters f startPoint initialSigma = Inl InvalidArgument"
  by (simp add: init_def)

theorem init_nonpositive_sigma_InvalidArgument_witness:
  "(0 :: real) \<le> 0 \<and> init plainParameters (sphere 2) [1, 1] 0 = Inl InvalidArgument
   \<and> (- 1 / 2 :: real) \<le> 0
   \<and> init plainParameters (sphere 2) [1, 1] (- 1 / 2) = Inl InvalidArgument"
  using init_nonpositive_sigma_InvalidArgument [of 0 plainParameters "sphere 2" "[1, 1]"]
        init_nonpositive_sigma_InvalidArgument [of "- 1 / 2" plainParameters "sphere 2" "[1, 1]"]
  by simp

text \<open>With a positive step size the same call initialises the search.\<close>

lemma init_positive_sigma:
  "\<exists>c. init plainParameters (sphere 2) [1, 1] (1 / 2) = Inr (Initialized c)"
  by (simp add: init_def sphere_def)


section \<open>Properties of the optimisation loop of the test\<close>

lemma exitsAtTarget_Suc: "exitsAtTarget (Suc i) r \<Longrightarrow> exitsAtTarget i r"
  by (auto simp: exitsAtTarget_def split: sum.splits prod.splits)

lemma optimizationLoop_exitsAtTarget:
  assumes "optimizationLoop standardNormal adapt c g i = Some r"
  shows "exitsAtTarget i r"
proof (rule optimizationLoop.raw_induct
    [where P = "\<lambda>sn ad c g i r. exitsAtTarget i r", OF _ assms], goal_cases)
  case (1 loop sn ad c g i r)
  show ?case
  proof (cases "run sn ad c g")
    case (Inl e)
    with 1(2) show ?thesis by (auto simp: exitsAtTarget_def)
  next
    case (Inr p)
    obtain c1 g1 where p: "p = (c1, g1)" by (cases p)
    show ?thesis
    proof (cases "bestSolutionFitness c1")
      case (Inl e)
      with 1(2) Inr p show ?thesis by (auto simp: exitsAtTarget_def)
    next
      case f: (Inr f)
      show ?thesis
      proof (cases "fitness_less (Value targetFitness) f")
        case True
        with 1(2) Inr p f have "loop sn ad c1 g1 (Suc i) = Some r" by simp
        from 1(1) [OF this] show ?thesis by (rule exitsAtTarget_Suc)
      next
        case False
        with 1(2) Inr p f show ?thesis by (auto simp: exitsAtTarget_def)
      qed
    qed
  qed
qed

text \<open>
  When the loop ends normally, \<open>run\<close> has been called at least once and the best fitness
  is at most \<open>10^-9\<close>. That is all the guard gives: whether the loop ends depends on the
  search.
\<close>

lemma optimizationLoop_exit:
  assumes "optimizationLoop standardNormal adapt c g i = Some (Inr (c', g', k))"
  shows "\<exists>f. bestSolutionFitness c' = Inr f \<and> fitness_le f (Value (1 / 10 ^ 9)) \<and> i < k"
  using optimizationLoop_exitsAtTarget [OF assms]
  by (auto simp: exitsAtTarget_def fitness_le_def targetFitness_def split: sum.splits)

text \<open>
  A run of the loop on the small instance: the first candidate is \<open>1/50000\<close> with fitness
  \<open>4 * 10^-10\<close>; the loop ends after one call of \<open>run\<close>, at a best fitness that is below
  \<open>10^-9\<close> and not below \<open>10^-10\<close>.
\<close>

lemma optimizationLoop_exit_between:
  "\<exists>c'. optimizationLoop scriptedNormal keepDistribution searchAtOne
            [- 49999 / 50000, 1] 0 = Some (Inr (c', [], 1))
        \<and> bestSolutionFitness c' = Inr (Value (4 / 10 ^ 10))
        \<and> \<not> fitness_less (Value (4 / 10 ^ 10)) (Value (1 / 10 ^ 10))"
  by (subst optimizationLoop.simps)
     (simp add: run_def searchAtOne_def sphere_def plainParameters_def
        keepDistribution_def sampleOne_def matVec_def fitness_le_def Let_def numeral_2_eq_2
        bestSolutionFitness_def targetFitness_def)

end
